theory Spec2Isabelle
  imports Complex_Main "HOL-Library.Stream"
begin

section \<open>The gummy bear simulation of \<^verbatim>\<open>Gummy_Bears.ipynb\<close>\<close>

text \<open>
  The notebook estimates, by repeated random trials, the probability that a package of
  \<open>n\<close> gummy bears drawn uniformly from \<open>m\<close> flavours contains every flavour. Its helper
  functions are embedded below, one HOL definition per Python function, under the
  Python names.

  Python integers are unbounded and are \<^typ>\<open>int\<close> here. The quotient of two integers
  (\<^verbatim>\<open>/\<close>) and the result of \<^verbatim>\<open>statistics.mean\<close> are Python floats, the correctly
  rounded values of exact rationals; the embedding keeps the exact rational
  (\<^typ>\<open>rat\<close>) and does not model the rounding. Rounding is monotone and leaves 0 and 1
  as they are, so a quotient that is 0, is 1 or lies between them does so as a float.
\<close>

subsection \<open>The world outside the functions\<close>

text \<open>
  The helpers read the process-wide random source (\<^verbatim>\<open>random.randrange\<close>), read the
  wall clock (\<^verbatim>\<open>time.time\<close>) and write to the console (\<^verbatim>\<open>print\<close>). The world record
  holds what they consume and produce: the raw draws the random source still has to
  deliver, the clock readings still to come, and the lines printed so far. A printed
  line is kept as the values handed to the format string, not as formatted text.
\<close>

datatype py_error = ValueError | ZeroDivisionError | StatisticsError

datatype out_line =
    TrialSummary int int rat
  | ResultsFor int int
  | EstimateList "rat list"
  | MeanLine rat
  | TimeTaken rat

record world =
  entropy :: "nat stream"
  clock :: "rat stream"
  stdout :: "out_line list"

type_synonym 'a py = "world \<Rightarrow> (py_error + 'a) \<times> world"

definition py_return :: "'a \<Rightarrow> 'a py" where
  "py_return x w = (Inr x, w)"

definition py_raise :: "py_error \<Rightarrow> 'a py" where
  "py_raise e w = (Inl e, w)"

text \<open>Sequencing: an exception raised by the first computation ends the whole one.\<close>

definition py_bind :: "'a py \<Rightarrow> ('a \<Rightarrow> 'b py) \<Rightarrow> 'b py" where
  "py_bind c f w = (case c w of (Inl e, w') \<Rightarrow> (Inl e, w') | (Inr x, w') \<Rightarrow> f x w')"

text \<open>
  \<^verbatim>\<open>random.randrange(n)\<close> with a single argument returns an integer of \<open>range(n)\<close>
  when \<open>n > 0\<close> and raises \<^verbatim>\<open>ValueError("empty range for randrange()")\<close> otherwise.
  The value returned is the next raw draw reduced into \<open>range(n)\<close>, so every sequence
  of in-range values is the outcome of some world.
\<close>

definition randrange :: "int \<Rightarrow> int py" where
  "randrange n w =
     (if 0 < n
      then (Inr (int (shd (entropy w)) mod n), w\<lparr>entropy := stl (entropy w)\<rparr>)
      else (Inl ValueError, w))"

definition time_time :: "rat py" where
  "time_time w = (Inr (shd (clock w)), w\<lparr>clock := stl (clock w)\<rparr>)"

definition print :: "out_line \<Rightarrow> unit py" where
  "print l w = (Inr (), w\<lparr>stdout := stdout w @ [l]\<rparr>)"

text \<open>
  \<^verbatim>\<open>[body for i in range(n)]\<close> where the body does not use \<open>i\<close>: the body runs
  \<open>n\<close> times, left to right (\<open>range(n)\<close> is empty for \<open>n \<le> 0\<close>, hence the \<^typ>\<open>nat\<close>).
\<close>

fun list_comp :: "nat \<Rightarrow> 'a py \<Rightarrow> 'a list py" where
  "list_comp 0 body = py_return []"
| "list_comp (Suc n) body =
     py_bind body (\<lambda>x. py_bind (list_comp n body) (\<lambda>xs. py_return (x # xs)))"

text \<open>\<^verbatim>\<open>a / b\<close> on integers: true division, \<^verbatim>\<open>ZeroDivisionError\<close> when \<open>b = 0\<close>.\<close>

definition true_div :: "int \<Rightarrow> int \<Rightarrow> rat py" where
  "true_div a b = (if b = 0 then py_raise ZeroDivisionError else py_return (of_int a / of_int b))"

text \<open>\<^verbatim>\<open>statistics.mean\<close>: the exact mean, \<^verbatim>\<open>StatisticsError\<close> on empty data.\<close>

definition statistics_mean :: "rat list \<Rightarrow> rat py" where
  "statistics_mean xs =
     (if xs = [] then py_raise StatisticsError
      else py_return (sum_list xs / of_nat (length xs)))"

text \<open>\<^verbatim>\<open>set(xs)\<close>: the elements of the list are added, one by one, to an empty set.\<close>

definition py_set :: "'a list \<Rightarrow> 'a set" where
  "py_set xs = fold insert xs {}"

subsection \<open>The helper functions of the notebook\<close>

text \<open>
  \<^verbatim>\<open>
  def generate_gummy_bear_package_sample(package_size, num_types):
    return [random.randrange(num_types) for i in range(package_size)]
  \<close>
\<close>

definition generate_gummy_bear_package_sample :: "int \<Rightarrow> int \<Rightarrow> int list py" where
  "generate_gummy_bear_package_sample package_size num_types =
     list_comp (nat package_size) (randrange num_types)"

text \<open>
  \<^verbatim>\<open>
  def get_num_unique_gummy_bear_types(gummy_bear_package):
    return len(set(gummy_bear_package))
  \<close>
\<close>

definition get_num_unique_gummy_bear_types :: "int list \<Rightarrow> int" where
  "get_num_unique_gummy_bear_types gummy_bear_package = int (card (py_set gummy_bear_package))"

text \<open>
  \<^verbatim>\<open>
  def generate_samples(num_samples, package_size, num_types):
    return [get_num_unique_gummy_bear_types(
              generate_gummy_bear_package_sample(package_size, num_types))
            for i in range(num_samples)]
  \<close>
\<close>

definition generate_samples :: "int \<Rightarrow> int \<Rightarrow> int \<Rightarrow> int list py" where
  "generate_samples num_samples package_size num_types =
     list_comp (nat num_samples)
       (py_bind (generate_gummy_bear_package_sample package_size num_types)
          (\<lambda>p. py_return (get_num_unique_gummy_bear_types p)))"

text \<open>
  \<^verbatim>\<open>
  def run_single_trial(num_samples, package_size, num_types, print_results=False):
    samples = generate_samples(num_samples, package_size, num_types)
    num_packages_with_all_types = len([s for s in samples if s == num_types])
    estimated_probability = num_packages_with_all_types/num_samples
    if print_results:
      print(f'Out of {num_samples} samples ..., {num_packages_with_all_types} packages
              contained all flavors for a fraction of {estimated_probability:.8f}')
    return estimated_probability
  \<close>
\<close>

definition run_single_trial :: "int \<Rightarrow> int \<Rightarrow> int \<Rightarrow> bool \<Rightarrow> rat py" where
  "run_single_trial num_samples package_size num_types print_results =
     py_bind (generate_samples num_samples package_size num_types) (\<lambda>samples.
       let num_packages_with_all_types = int (length (filter (\<lambda>s. s = num_types) samples)) in
       py_bind (true_div num_packages_with_all_types num_samples) (\<lambda>estimated_probability.
         py_bind
           (if print_results
            then print (TrialSummary num_samples num_packages_with_all_types
                          estimated_probability)
            else py_return ())
           (\<lambda>_. py_return estimated_probability)))"

text \<open>
  \<^verbatim>\<open>
  def print_estimates(estimates, n, m):
    print(f'Results for n={n}, m={m}')
    print([f'{e:.8f}' for e in estimates])
    print(f'mean: {statistics.mean(estimates):.8f}')
  \<close>
\<close>

definition print_estimates :: "rat list \<Rightarrow> int \<Rightarrow> int \<Rightarrow> unit py" where
  "print_estimates estimates n m =
     py_bind (print (ResultsFor n m)) (\<lambda>_.
       py_bind (print (EstimateList estimates)) (\<lambda>_.
         py_bind (statistics_mean estimates) (\<lambda>mean.
           print (MeanLine mean))))"

text \<open>
  \<^verbatim>\<open>
  def run_trials(num_trials, num_samples, package_size, num_types):
    start = time.time()
    estimates = []
    for i in range(num_trials):
      estimates.append(run_single_trial(num_samples, package_size, num_types))
    print_estimates(estimates, package_size, num_types)
    print(f'Time taken: {(time.time() - start):.2f} seconds')
    return estimates
  \<close>
  The \<^verbatim>\<open>for\<close> loop is \<open>trials_loop\<close>: the number of iterations left, the loop body and
  the list \<open>estimates\<close> built so far.
\<close>

fun trials_loop :: "nat \<Rightarrow> rat py \<Rightarrow> rat list \<Rightarrow> rat list py" where
  "trials_loop 0 body estimates = py_return estimates"
| "trials_loop (Suc n) body estimates =
     py_bind body (\<lambda>e. trials_loop n body (estimates @ [e]))"

definition run_trials :: "int \<Rightarrow> int \<Rightarrow> int \<Rightarrow> int \<Rightarrow> rat list py" where
  "run_trials num_trials num_samples package_size num_types =
     py_bind time_time (\<lambda>start.
       py_bind (trials_loop (nat num_trials)
                  (run_single_trial num_samples package_size num_types False) [])
         (\<lambda>estimates.
           py_bind (print_estimates estimates package_size num_types) (\<lambda>_.
             py_bind time_time (\<lambda>now.
               py_bind (print (TimeTaken (now - start))) (\<lambda>_.
                 py_return estimates)))))"

subsection \<open>What a run draws from the random source\<close>

text \<open>
  The package that \<open>package_size\<close> draws from the raw stream \<open>e\<close> give, the packages of
  a trial (each taken from what the one before left), and the world a trial starts in
  are named here, to state what the functions return.
\<close>

definition package_of :: "nat \<Rightarrow> int \<Rightarrow> nat stream \<Rightarrow> int list" where
  "package_of k m e = map (\<lambda>x. int x mod m) (stake k e)"

fun packages_drawn :: "nat \<Rightarrow> nat \<Rightarrow> int \<Rightarrow> nat stream \<Rightarrow> int list list" where
  "packages_drawn 0 k m e = []"
| "packages_drawn (Suc n) k m e = package_of k m e # packages_drawn n k m (sdrop k e)"

definition world0 :: world where
  "world0 = \<lparr>entropy = siterate Suc 0, clock = siterate (\<lambda>t. t + 1) 0, stdout = []\<rparr>"

text \<open>The number of packages of a trial that hold every one of the \<open>m\<close> types.\<close>

definition num_complete :: "nat \<Rightarrow> nat \<Rightarrow> int \<Rightarrow> nat stream \<Rightarrow> nat" where
  "num_complete n k m e =
     length (filter (\<lambda>p. get_num_unique_gummy_bear_types p = m) (packages_drawn n k m e))"

text \<open>
  A Python list is an object passed by reference, and a function may change the object
  it is given. For the question whether the counter does, the same function is
  embedded once more on a store of objects: a heap is the list of the objects
  allocated so far, a reference is an index into it, and a new object goes to the end.
\<close>

datatype py_object = ListObj "int list" | SetObj "int set"

type_synonym heap = "py_object list"

text \<open>The list a reference stands for, if it stands for a list.\<close>

definition heap_list :: "heap \<Rightarrow> nat \<Rightarrow> int list option" where
  "heap_list h r =
     (if r < length h then (case h ! r of ListObj xs \<Rightarrow> Some xs | SetObj s \<Rightarrow> None) else None)"

text \<open>\<^verbatim>\<open>s.add(x)\<close> on the set object at \<open>a\<close>.\<close>

definition set_add :: "nat \<Rightarrow> int \<Rightarrow> heap \<Rightarrow> heap option" where
  "set_add a x h =
     (if a < length h
      then (case h ! a of SetObj s \<Rightarrow> Some (h[a := SetObj (insert x s)]) | ListObj xs \<Rightarrow> None)
      else None)"

text \<open>
  The loop inside \<^verbatim>\<open>set(iterable)\<close>: the list iterator reads element \<open>i\<close> of the list
  object at \<open>r\<close> as long as \<open>i\<close> is below its current length, and each element read is
  added to the set object at \<open>a\<close>.
\<close>

function set_update :: "nat \<Rightarrow> nat \<Rightarrow> nat \<Rightarrow> heap \<Rightarrow> heap option" where
  "set_update a r i h =
     (case heap_list h r of
        None \<Rightarrow> None
      | Some xs \<Rightarrow>
          if i < length xs
          then (case set_add a (xs ! i) h of
                  None \<Rightarrow> None
                | Some h' \<Rightarrow> set_update a r (Suc i) h')
          else Some h)"
  by pat_completeness auto
termination
proof (relation "measure (\<lambda>(a, r, i, h). (case heap_list h r of None \<Rightarrow> 0 | Some xs \<Rightarrow> length xs) - i)")
  show "wf (measure (\<lambda>(a, r, i, h). (case heap_list h r of None \<Rightarrow> 0 | Some xs \<Rightarrow> length xs) - i))"
    by simp
next
  fix a r i :: nat and h h' :: heap and xs :: "int list"
  assume l: "heap_list h r = Some xs" and i: "i < length xs"
    and s: "set_add a (xs ! i) h = Some h'"
  from l s have "a \<noteq> r"
    by (auto simp: heap_list_def set_add_def split: if_splits py_object.splits)
  with l s have "heap_list h' r = Some xs"
    by (auto simp: heap_list_def set_add_def split: if_splits py_object.splits)
  with l i show "((a, r, Suc i, h'), (a, r, i, h)) \<in>
      measure (\<lambda>(a, r, i, h). (case heap_list h r of None \<Rightarrow> 0 | Some xs \<Rightarrow> length xs) - i)"
    by simp
qed

declare set_update.simps [simp del]

text \<open>\<^verbatim>\<open>set(r)\<close>: a new empty set object, filled from the list at \<open>r\<close>.\<close>

definition set_of :: "nat \<Rightarrow> heap \<Rightarrow> (nat \<times> heap) option" where
  "set_of r h =
     (let a = length h in
      case set_update a r 0 (h @ [SetObj {}]) of
        None \<Rightarrow> None
      | Some h' \<Rightarrow> Some (a, h'))"

text \<open>\<^verbatim>\<open>len\<close> of the object at \<open>a\<close>.\<close>

definition len_of :: "nat \<Rightarrow> heap \<Rightarrow> int option" where
  "len_of a h =
     (if a < length h
      then Some (case h ! a of ListObj xs \<Rightarrow> int (length xs) | SetObj s \<Rightarrow> int (card s))
      else None)"

text \<open>
  \<^verbatim>\<open>len(set(gummy_bear_package))\<close> with the package given by reference. The result is
  the number returned and the heap the call leaves; \<open>None\<close> stands for the
  \<^verbatim>\<open>TypeError\<close> of a reference that is no list.
\<close>

definition get_num_unique_gummy_bear_types_ref :: "nat \<Rightarrow> heap \<Rightarrow> (int \<times> heap) option" where
  "get_num_unique_gummy_bear_types_ref gummy_bear_package h =
     (case set_of gummy_bear_package h of
        None \<Rightarrow> None
      | Some (a, h') \<Rightarrow>
          (case len_of a h' of None \<Rightarrow> None | Some n \<Rightarrow> Some (n, h')))"

text \<open>
  The estimates of \<open>n\<close> trials run one after the other on the raw stream \<open>e\<close>: each
  trial draws \<open>num_samples\<close> packages and leaves the rest of the stream to the next.
\<close>

fun trial_estimates :: "nat \<Rightarrow> int \<Rightarrow> int \<Rightarrow> int \<Rightarrow> nat stream \<Rightarrow> rat list" where
  "trial_estimates 0 ns ps m e = []"
| "trial_estimates (Suc n) ns ps m e =
     (of_nat (num_complete (nat ns) (nat ps) m e) / of_int ns) #
     trial_estimates n ns ps m (sdrop (nat ns * nat ps) e)"

subsection \<open>The outcome space of the draws\<close>

text \<open>
  The outcomes of \<open>n\<close> calls of \<open>randrange(m)\<close>: every list of \<open>n\<close> values of
  \<open>range(m)\<close>, once each. Under uniform independent draws they are equally likely. A
  package of \<open>n\<close> bears is one of them, and \<open>probability_all_types n m\<close> is the share of
  them that the test \<^verbatim>\<open>s == num_types\<close> of \<open>run_single_trial\<close> counts.
\<close>

definition all_draws :: "nat \<Rightarrow> nat \<Rightarrow> int list list" where
  "all_draws n m = List.n_lists n (map int [0..<m])"

definition probability_all_types :: "nat \<Rightarrow> nat \<Rightarrow> rat" where
  "probability_all_types n m =
     of_nat (length (filter (\<lambda>p. get_num_unique_gummy_bear_types p = int m) (all_draws n m)))
     / of_nat (length (all_draws n m))"

text \<open>The packages of size \<open>n\<close> in which each of the \<open>m\<close> types occurs.\<close>

definition complete_packages :: "nat \<Rightarrow> nat \<Rightarrow> int list set" where
  "complete_packages n m = {p. length p = n \<and> set p = int ` {0..<m}}"

text \<open>
  A world whose random source delivers the draws \<open>os\<close>, the estimate a quiet trial
  returns in it, and the mean of that estimate over all outcomes of the
  \<open>num_samples * package_size\<close> draws the trial makes.
\<close>

definition world_drawing :: "int list \<Rightarrow> world" where
  "world_drawing os = \<lparr>entropy = map nat os @- sconst 0, clock = sconst 0, stdout = []\<rparr>"

definition estimate_on :: "int \<Rightarrow> int \<Rightarrow> int \<Rightarrow> int list \<Rightarrow> rat" where
  "estimate_on ns ps m os =
     (case fst (run_single_trial ns ps m False (world_drawing os)) of
        Inr estimate \<Rightarrow> estimate
      | Inl e \<Rightarrow> 0)"

definition expected_estimate :: "int \<Rightarrow> int \<Rightarrow> int \<Rightarrow> rat" where
  "expected_estimate ns ps m =
     sum_list (map (estimate_on ns ps m) (all_draws (nat ns * nat ps) (nat m)))
     / of_nat (length (all_draws (nat ns * nat ps) (nat m)))"

text \<open>The number of complete packages of a trial, summed over all outcomes of its draws.\<close>

definition total_complete :: "nat \<Rightarrow> nat \<Rightarrow> nat \<Rightarrow> nat" where
  "total_complete n k m =
     (\<Sum>os \<in> set (all_draws (n * k) m). num_complete n k (int m) (map nat os @- sconst 0))"

section \<open>Properties\<close>

subsection \<open>The monad and the library functions\<close>

lemma py_bind_return [simp]: "py_bind (py_return x) f = f x"
  by (rule ext) (simp add: py_bind_def py_return_def)

lemma py_bind_raise [simp]: "py_bind (py_raise e) f = py_raise e"
  by (rule ext) (simp add: py_bind_def py_raise_def)

lemma py_bind_Inr: "c w = (Inr x, w') \<Longrightarrow> py_bind c f w = f x w'"
  by (simp add: py_bind_def)

lemma py_bind_Inl: "c w = (Inl e, w') \<Longrightarrow> py_bind c f w = (Inl e, w')"
  by (simp add: py_bind_def)

lemma py_set_eq: "py_set xs = set xs"
proof -
  have "fold insert xs A = set xs \<union> A" for A :: "'a set"
    by (induction xs arbitrary: A) auto
  then show ?thesis
    by (simp add: py_set_def)
qed

lemma list_comp_randrange:
  "0 < m \<Longrightarrow>
   list_comp k (randrange m) w =
     (Inr (package_of k m (entropy w)), w\<lparr>entropy := sdrop k (entropy w)\<rparr>)"
proof (induction k arbitrary: w)
  case 0
  then show ?case
    by (simp add: py_return_def package_of_def)
next
  case (Suc k)
  have "randrange m w = (Inr (int (shd (entropy w)) mod m), w\<lparr>entropy := stl (entropy w)\<rparr>)"
    using Suc.prems by (simp add: randrange_def)
  then show ?case
    using Suc.IH [OF Suc.prems]
    by (simp add: py_bind_Inr py_return_def package_of_def)
qed

lemma generate_package:
  "0 < m \<Longrightarrow>
   generate_gummy_bear_package_sample n m w =
     (Inr (package_of (nat n) m (entropy w)), w\<lparr>entropy := sdrop (nat n) (entropy w)\<rparr>)"
  by (simp add: generate_gummy_bear_package_sample_def list_comp_randrange)

lemma length_package_of: "length (package_of k m e) = k"
  by (simp add: package_of_def)

lemma package_of_range: "0 < m \<Longrightarrow> x \<in> set (package_of k m e) \<Longrightarrow> 0 \<le> x \<and> x \<le> m - 1"
  by (auto simp: package_of_def)

subsection \<open>The package generator\<close>

text \<open>
  Claim C2. For every package size \<open>n \<ge> 0\<close> and number of types \<open>m \<ge> 1\<close>,
  \<open>generate_gummy_bear_package_sample n m\<close> returns, in every world, a list of
  length exactly \<open>n\<close> whose elements all lie in the integer range \<open>[0, m - 1]\<close>.
\<close>

theorem generate_package_length_range:
  assumes "0 \<le> n" and "1 \<le> m"
  shows "\<exists>p w'. generate_gummy_bear_package_sample n m w = (Inr p, w')
           \<and> int (length p) = n \<and> (\<forall>x \<in> set p. 0 \<le> x \<and> x \<le> m - 1)"
proof -
  from assms(2) have m: "0 < m" by simp
  let ?p = "package_of (nat n) m (entropy w)"
  have "generate_gummy_bear_package_sample n m w
          = (Inr ?p, w\<lparr>entropy := sdrop (nat n) (entropy w)\<rparr>)"
    by (rule generate_package [OF m])
  moreover have "int (length ?p) = n"
    using assms(1) by (simp add: length_package_of)
  moreover have "\<forall>x \<in> set ?p. 0 \<le> x \<and> x \<le> m - 1"
    using package_of_range [OF m] by blast
  ultimately show ?thesis by blast
qed

theorem generate_package_length_range_witness:
  "(0::int) \<le> 3 \<and> (1::int) \<le> 2
   \<and> (\<exists>p w'. generate_gummy_bear_package_sample 3 2 world0 = (Inr p, w')
         \<and> int (length p) = 3 \<and> (\<forall>x \<in> set p. 0 \<le> x \<and> x \<le> 2 - 1))"
  using generate_package_length_range [of 3 2 world0] by simp



subsection \<open>The samples of a trial\<close>

lemma get_num_unique_card: "get_num_unique_gummy_bear_types p = int (card (set p))"
  by (simp add: get_num_unique_gummy_bear_types_def py_set_eq)

lemma sample_body:
  "0 < m \<Longrightarrow>
   py_bind (generate_gummy_bear_package_sample n m)
     (\<lambda>p. py_return (get_num_unique_gummy_bear_types p)) w =
     (Inr (get_num_unique_gummy_bear_types (package_of (nat n) m (entropy w))),
      w\<lparr>entropy := sdrop (nat n) (entropy w)\<rparr>)"
proof -
  assume "0 < m"
  then have "py_bind (generate_gummy_bear_package_sample n m)
     (\<lambda>p. py_return (get_num_unique_gummy_bear_types p)) w =
     py_return (get_num_unique_gummy_bear_types (package_of (nat n) m (entropy w)))
       (w\<lparr>entropy := sdrop (nat n) (entropy w)\<rparr>)"
    by (simp add: py_bind_Inr [OF generate_package])
  also have "\<dots> = (Inr (get_num_unique_gummy_bear_types (package_of (nat n) m (entropy w))),
      w\<lparr>entropy := sdrop (nat n) (entropy w)\<rparr>)"
    by (simp add: py_return_def)
  finally show ?thesis .
qed

lemma list_comp_samples:
  assumes "0 < m"
  shows "list_comp n
     (py_bind (generate_gummy_bear_package_sample ps m)
        (\<lambda>p. py_return (get_num_unique_gummy_bear_types p))) w =
     (Inr (map get_num_unique_gummy_bear_types (packages_drawn n (nat ps) m (entropy w))),
      w\<lparr>entropy := sdrop (n * nat ps) (entropy w)\<rparr>)"
proof (induction n arbitrary: w)
  case 0
  show ?case by (simp add: py_return_def)
next
  case (Suc n)
  let ?body = "py_bind (generate_gummy_bear_package_sample ps m)
        (\<lambda>p. py_return (get_num_unique_gummy_bear_types p))"
  let ?w1 = "w\<lparr>entropy := sdrop (nat ps) (entropy w)\<rparr>"
  have "list_comp (Suc n) ?body w =
     py_return
       (get_num_unique_gummy_bear_types (package_of (nat ps) m (entropy w)) #
        map get_num_unique_gummy_bear_types (packages_drawn n (nat ps) m (entropy ?w1)))
       (?w1\<lparr>entropy := sdrop (n * nat ps) (entropy ?w1)\<rparr>)"
    by (simp only: list_comp.simps py_bind_Inr [OF sample_body [OF assms]]
        py_bind_Inr [OF Suc.IH])
  also have "\<dots> =
     (Inr (map get_num_unique_gummy_bear_types
             (packages_drawn (Suc n) (nat ps) m (entropy w))),
      w\<lparr>entropy := sdrop (Suc n * nat ps) (entropy w)\<rparr>)"
    by (simp add: py_return_def add.commute)
  finally show ?case .
qed

lemma generate_samples_ok:
  "0 < m \<Longrightarrow>
   generate_samples ns ps m w =
     (Inr (map get_num_unique_gummy_bear_types
             (packages_drawn (nat ns) (nat ps) m (entropy w))),
      w\<lparr>entropy := sdrop (nat ns * nat ps) (entropy w)\<rparr>)"
  by (simp add: generate_samples_def list_comp_samples)

lemma length_packages_drawn: "length (packages_drawn n k m e) = n"
  by (induction n arbitrary: e) simp_all

lemma count_samples:
  "length (filter (\<lambda>s. s = m) (map get_num_unique_gummy_bear_types ps)) =
   length (filter (\<lambda>p. get_num_unique_gummy_bear_types p = m) ps)"
  by (simp add: filter_map comp_def)

lemma num_complete_le: "num_complete n k m e \<le> n"
  unfolding num_complete_def
  using length_filter_le [of _ "packages_drawn n k m e"] by (simp add: length_packages_drawn)

lemma run_single_trial_quiet:
  assumes "0 < m" and "ns \<noteq> 0"
  shows "run_single_trial ns ps m False w =
     (Inr (of_nat (num_complete (nat ns) (nat ps) m (entropy w)) / of_int ns),
      w\<lparr>entropy := sdrop (nat ns * nat ps) (entropy w)\<rparr>)"
  using assms(2)
  by (simp add: run_single_trial_def py_bind_Inr [OF generate_samples_ok [OF assms(1)]]
      count_samples comp_def true_div_def py_return_def num_complete_def)

lemma run_single_trial_verbose:
  assumes "0 < m" and "ns \<noteq> 0"
  shows "run_single_trial ns ps m True w =
     (Inr (of_nat (num_complete (nat ns) (nat ps) m (entropy w)) / of_int ns),
      w\<lparr>entropy := sdrop (nat ns * nat ps) (entropy w),
        stdout := stdout w @
          [TrialSummary ns (int (num_complete (nat ns) (nat ps) m (entropy w)))
             (of_nat (num_complete (nat ns) (nat ps) m (entropy w)) / of_int ns)]\<rparr>)"
  using assms(2)
  by (simp add: run_single_trial_def py_bind_Inr [OF generate_samples_ok [OF assms(1)]]
      count_samples comp_def true_div_def py_return_def num_complete_def print_def py_bind_def)

lemma estimate_unit_interval:
  assumes "0 < ns"
  shows "0 \<le> (of_nat (num_complete (nat ns) k m e) :: rat) / of_int ns"
    and "(of_nat (num_complete (nat ns) k m e) :: rat) / of_int ns \<le> 1"
proof -
  show "0 \<le> (of_nat (num_complete (nat ns) k m e) :: rat) / of_int ns"
    using assms by simp
  have "int (num_complete (nat ns) k m e) \<le> ns"
    using num_complete_le [of "nat ns" k m e] assms by linarith
  then have "(of_int (int (num_complete (nat ns) k m e)) :: rat) \<le> of_int ns"
    by (simp only: of_int_le_iff)
  then show "(of_nat (num_complete (nat ns) k m e) :: rat) / of_int ns \<le> 1"
    using assms by (simp add: divide_le_eq_1)
qed


lemma num_complete_all:
  "(\<And>e'. get_num_unique_gummy_bear_types (package_of k m e') = m) \<Longrightarrow>
   num_complete n k m e = n"
  by (induction n arbitrary: e) (simp_all add: num_complete_def)

lemma num_complete_none:
  "(\<And>e'. get_num_unique_gummy_bear_types (package_of k m e') \<noteq> m) \<Longrightarrow>
   num_complete n k m e = 0"
  by (induction n arbitrary: e) (simp_all add: num_complete_def)

lemma run_single_trial_fst:
  assumes "0 < m" and "ns \<noteq> 0"
  shows "fst (run_single_trial ns ps m pr w) =
     Inr (of_nat (num_complete (nat ns) (nat ps) m (entropy w)) / of_int ns)"
  using run_single_trial_quiet [OF assms] run_single_trial_verbose [OF assms]
  by (cases pr) simp_all

subsection \<open>Failures of the trial runner\<close>

lemma run_single_trial_no_samples:
  "run_single_trial 0 ps m pr w = (Inl ZeroDivisionError, w)"
  by (simp add: run_single_trial_def generate_samples_def true_div_def py_raise_def)

lemma randrange_empty: "m \<le> 0 \<Longrightarrow> randrange m w = (Inl ValueError, w)"
  by (simp add: randrange_def)

lemma generate_package_empty_range:
  assumes "m \<le> 0" and "0 < ps"
  shows "generate_gummy_bear_package_sample ps m w = (Inl ValueError, w)"
proof -
  from assms(2) obtain k where k: "nat ps = Suc k"
    by (cases "nat ps") auto
  show ?thesis
    by (simp only: generate_gummy_bear_package_sample_def k list_comp.simps
        py_bind_Inl [OF randrange_empty [OF assms(1)]])
qed

lemma generate_samples_empty_range:
  assumes "m \<le> 0" and "0 < ps" and "0 < ns"
  shows "generate_samples ns ps m w = (Inl ValueError, w)"
proof -
  from assms(3) obtain k where k: "nat ns = Suc k"
    by (cases "nat ns") auto
  show ?thesis
    by (simp only: generate_samples_def k list_comp.simps
        py_bind_Inl [OF py_bind_Inl [OF generate_package_empty_range [OF assms(1,2)]]])
qed

lemma run_single_trial_empty_range:
  assumes "m \<le> 0" and "0 < ps" and "0 < ns"
  shows "run_single_trial ns ps m pr w = (Inl ValueError, w)"
  by (simp only: run_single_trial_def py_bind_Inl [OF generate_samples_empty_range [OF assms]])

lemma generate_package_nothing:
  "ps \<le> 0 \<Longrightarrow> generate_gummy_bear_package_sample ps m w = (Inr [], w)"
  by (simp add: generate_gummy_bear_package_sample_def py_return_def)

lemma list_comp_samples_nothing:
  assumes "ps \<le> 0"
  shows "list_comp n
     (py_bind (generate_gummy_bear_package_sample ps m)
        (\<lambda>p. py_return (get_num_unique_gummy_bear_types p))) w =
     (Inr (replicate n 0), w)"
proof (induction n)
  case 0
  show ?case by (simp add: py_return_def)
next
  case (Suc n)
  let ?body = "py_bind (generate_gummy_bear_package_sample ps m)
        (\<lambda>p. py_return (get_num_unique_gummy_bear_types p))"
  have body: "?body w = (Inr 0, w)"
  proof -
    have "?body w = py_return (get_num_unique_gummy_bear_types []) w"
      by (simp only: py_bind_Inr [OF generate_package_nothing [OF assms]])
    also have "\<dots> = (Inr 0, w)"
      by (simp add: py_return_def get_num_unique_gummy_bear_types_def py_set_def)
    finally show ?thesis .
  qed
  have "list_comp (Suc n) ?body w = py_return (0 # replicate n 0) w"
    by (simp only: list_comp.simps py_bind_Inr [of ?body w, OF body]
        py_bind_Inr [of "list_comp n ?body" w, OF Suc.IH])
  also have "\<dots> = (Inr (replicate (Suc n) 0), w)"
    by (simp add: py_return_def)
  finally show ?case .
qed

lemma run_single_trial_after_samples:
  assumes "generate_samples ns ps m w = (Inr samples, w1)" and "ns \<noteq> 0"
  shows "fst (run_single_trial ns ps m pr w) =
           Inr (of_nat (length (filter (\<lambda>s. s = m) samples)) / of_int ns)"
proof -
  have "run_single_trial ns ps m pr w =
     py_bind (if pr
            then print (TrialSummary ns (int (length (filter (\<lambda>s. s = m) samples)))
                   (of_nat (length (filter (\<lambda>s. s = m) samples)) / of_int ns))
            else py_return ())
           (\<lambda>_. py_return (of_nat (length (filter (\<lambda>s. s = m) samples)) / of_int ns)) w1"
    using assms(2)
    by (simp add: run_single_trial_def
        py_bind_Inr [of "generate_samples ns ps m" w, OF assms(1)] true_div_def)
  also have "fst \<dots> = Inr (of_nat (length (filter (\<lambda>s. s = m) samples)) / of_int ns)"
    by (cases pr) (simp_all add: py_bind_def print_def py_return_def)
  finally show ?thesis .
qed

lemma run_single_trial_returns:
  assumes "ns \<noteq> 0" and "\<not> (0 < ns \<and> 0 < ps \<and> m \<le> 0)"
  shows "\<exists>r. fst (run_single_trial ns ps m pr w) = Inr r"
proof -
  consider "0 < m" | "m \<le> 0" "ns < 0" | "m \<le> 0" "0 < ns" "ps \<le> 0"
    using assms by linarith
  then show ?thesis
  proof cases
    case 1
    then show ?thesis
      using run_single_trial_fst [OF _ assms(1)] by blast
  next
    case 2
    then have "generate_samples ns ps m w = (Inr [], w)"
      by (simp add: generate_samples_def py_return_def)
    then show ?thesis
      using run_single_trial_after_samples [OF _ assms(1)] by blast
  next
    case 3
    then have "generate_samples ns ps m w = (Inr (replicate (nat ns) 0), w)"
      by (simp only: generate_samples_def list_comp_samples_nothing)
    then show ?thesis
      using run_single_trial_after_samples [OF _ assms(1)] by blast
  qed
qed

lemma run_single_trial_no_types_no_bears_world:
  assumes "0 < ns" and "ps \<le> 0"
  shows "run_single_trial ns ps 0 pr w =
     (Inr 1, if pr then w\<lparr>stdout := stdout w @ [TrialSummary ns ns 1]\<rparr> else w)"
proof -
  have g: "generate_samples ns ps 0 w = (Inr (replicate (nat ns) 0), w)"
    using assms(2) by (simp only: generate_samples_def list_comp_samples_nothing)
  have "run_single_trial ns ps 0 pr w =
     py_bind (if pr then print (TrialSummary ns ns 1) else py_return ())
       (\<lambda>_. py_return 1) w"
    using assms(1)
    by (simp add: run_single_trial_def
        py_bind_Inr [of "generate_samples ns ps 0" w, OF g] true_div_def)
  also have "\<dots> = (Inr 1, if pr then w\<lparr>stdout := stdout w @ [TrialSummary ns ns 1]\<rparr> else w)"
    by (cases pr) (simp_all add: py_bind_def print_def py_return_def)
  finally show ?thesis .
qed

subsection \<open>The distinct-category counter\<close>

lemma card_values_bounds:
  assumes "p \<noteq> []" and "\<forall>x \<in> set p. 0 \<le> x \<and> x \<le> m - 1"
  shows "1 \<le> card (set p)" and "int (card (set p)) \<le> m"
proof -
  have "set p \<noteq> {}" using assms(1) by simp
  then have "0 < card (set p)"
    by (simp add: card_gt_0_iff)
  then show "1 \<le> card (set p)" by simp
  have "set p \<subseteq> {0..m - 1}"
    using assms(2) by auto
  then have "card (set p) \<le> card {0..m - 1}"
    by (intro card_mono) simp_all
  moreover from assms obtain x where "0 \<le> x" "x \<le> m - 1"
    by (cases p) auto
  ultimately show "int (card (set p)) \<le> m"
    by simp
qed

text \<open>
  Claim C3. For every non-empty package whose elements lie in \<open>[0, m - 1]\<close>,
  \<open>get_num_unique_gummy_bear_types\<close> returns exactly the number of distinct values
  that occur at some position of the package, and this number lies in \<open>[1, m]\<close>.
\<close>

theorem get_num_unique_distinct_count:
  assumes "p \<noteq> []" and "\<forall>x \<in> set p. 0 \<le> x \<and> x \<le> m - 1"
  shows "get_num_unique_gummy_bear_types p = int (card {v. \<exists>i < length p. p ! i = v})
         \<and> 1 \<le> get_num_unique_gummy_bear_types p
         \<and> get_num_unique_gummy_bear_types p \<le> m"
proof -
  have "{v. \<exists>i < length p. p ! i = v} = set p"
    by (auto simp: in_set_conv_nth)
  then show ?thesis
    using card_values_bounds [OF assms] by (simp add: get_num_unique_card)
qed

theorem get_num_unique_distinct_count_witness:
  "[2, 0, 2 :: int] \<noteq> [] \<and> list_all (\<lambda>x. 0 \<le> x \<and> x \<le> 3 - 1) [2, 0, 2 :: int]
   \<and> get_num_unique_gummy_bear_types [2, 0, 2] = 2
   \<and> 1 \<le> get_num_unique_gummy_bear_types [2, 0, 2]
   \<and> get_num_unique_gummy_bear_types [2, 0, 2] \<le> 3"
proof -
  have h1: "[2, 0, 2 :: int] \<noteq> []" by simp
  have h2: "\<forall>x \<in> set [2, 0, 2 :: int]. 0 \<le> x \<and> x \<le> 3 - 1" by simp
  have "get_num_unique_gummy_bear_types [2, 0, 2] = 2"
    by code_simp
  then show ?thesis
    using h1 get_num_unique_distinct_count [OF h1 h2] by simp
qed

lemma set_update_fills:
  assumes "heap_list h r = Some xs" and "a < length h" and "h ! a = SetObj s"
    and "i \<le> length xs"
  shows "set_update a r i h = Some (h[a := SetObj (s \<union> set (drop i xs))])"
  using assms
proof (induction "length xs - i" arbitrary: i h s)
  case 0
  then have "i = length xs" by simp
  moreover have "h[a := SetObj s] = h"
    using "0.prems"(3) by (metis list_update_id)
  ultimately show ?case
    using "0.prems"(1) by (subst set_update.simps) simp
next
  case (Suc d)
  then have i: "i < length xs" by simp
  from Suc.prems have ar: "a \<noteq> r"
    by (auto simp: heap_list_def split: if_splits)
  let ?h = "h[a := SetObj (insert (xs ! i) s)]"
  have add: "set_add a (xs ! i) h = Some ?h"
    using Suc.prems by (simp add: set_add_def)
  have l: "heap_list ?h r = Some xs"
    using Suc.prems(1) ar by (simp add: heap_list_def split: if_splits)
  have "set_update a r i h = set_update a r (Suc i) ?h"
    using Suc.prems(1) i add by (subst set_update.simps) simp
  also have "\<dots> = Some (?h[a := SetObj (insert (xs ! i) s \<union> set (drop (Suc i) xs))])"
    using Suc.hyps(2) i Suc.prems(2)
    by (intro Suc.hyps(1) l) simp_all
  also have "insert (xs ! i) s \<union> set (drop (Suc i) xs) = s \<union> set (drop i xs)"
    using i by (simp add: Cons_nth_drop_Suc [symmetric])
  finally show ?case by simp
qed

lemma set_of_list:
  assumes "heap_list h r = Some xs"
  shows "set_of r h = Some (length h, h @ [SetObj (set xs)])"
proof -
  from assms have r: "r < length h"
    by (simp add: heap_list_def split: if_splits)
  then have "heap_list (h @ [SetObj {}]) r = Some xs"
    using assms by (simp add: heap_list_def nth_append)
  then have "set_update (length h) r 0 (h @ [SetObj {}]) =
      Some ((h @ [SetObj {}])[length h := SetObj ({} \<union> set (drop 0 xs))])"
    by (rule set_update_fills) simp_all
  then show ?thesis
    by (simp add: set_of_def)
qed

lemma get_num_unique_ref_list:
  assumes "heap_list h r = Some p"
  shows "get_num_unique_gummy_bear_types_ref r h =
           Some (get_num_unique_gummy_bear_types p, h @ [SetObj (set p)])"
  by (simp add: get_num_unique_gummy_bear_types_ref_def set_of_list [OF assms] len_of_def
      get_num_unique_card)

lemma heap_list_append: "heap_list h r = Some p \<Longrightarrow> heap_list (h @ h') r = Some p"
  by (simp add: heap_list_def nth_append split: if_splits)

text \<open>
  Claim C7. Two calls of \<open>get_num_unique_gummy_bear_types\<close> on the same package
  object return the same number, the number of distinct values in the package, and
  after each call the package object holds the same list and every object allocated
  before the calls is as it was.
\<close>

theorem get_num_unique_twice:
  assumes "heap_list h r = Some p"
  shows "\<exists>a h1 b h2.
           get_num_unique_gummy_bear_types_ref r h = Some (a, h1)
         \<and> get_num_unique_gummy_bear_types_ref r h1 = Some (b, h2)
         \<and> a = b \<and> a = int (card (set p))
         \<and> heap_list h1 r = Some p \<and> heap_list h2 r = Some p
         \<and> take (length h) h1 = h \<and> take (length h) h2 = h"
proof -
  let ?h1 = "h @ [SetObj (set p)]"
  let ?h2 = "?h1 @ [SetObj (set p)]"
  have l1: "heap_list ?h1 r = Some p"
    by (rule heap_list_append [OF assms])
  have l2: "heap_list ?h2 r = Some p"
    by (rule heap_list_append [OF l1])
  have "get_num_unique_gummy_bear_types_ref r h = Some (int (card (set p)), ?h1)"
    by (simp add: get_num_unique_ref_list [OF assms] get_num_unique_card)
  moreover have "get_num_unique_gummy_bear_types_ref r ?h1 = Some (int (card (set p)), ?h2)"
    by (simp add: get_num_unique_ref_list [OF l1] get_num_unique_card)
  moreover have "take (length h) ?h1 = h" and "take (length h) ?h2 = h"
    by simp_all
  ultimately show ?thesis
    using l1 l2 by blast
qed

theorem get_num_unique_twice_witness:
  "heap_list [ListObj [2, 0, 2]] 0 = Some [2, 0, 2]
   \<and> (\<exists>a h1 b h2.
           get_num_unique_gummy_bear_types_ref 0 [ListObj [2, 0, 2]] = Some (a, h1)
         \<and> get_num_unique_gummy_bear_types_ref 0 h1 = Some (b, h2)
         \<and> a = b \<and> a = int (card (set [2, 0, 2 :: int]))
         \<and> heap_list h1 0 = Some [2, 0, 2] \<and> heap_list h2 0 = Some [2, 0, 2]
         \<and> take (length [ListObj [2, 0, 2]]) h1 = [ListObj [2, 0, 2]]
         \<and> take (length [ListObj [2, 0, 2]]) h2 = [ListObj [2, 0, 2]])"
proof -
  have h: "heap_list [ListObj [2, 0, 2]] 0 = Some [2, 0, 2]"
    by (simp add: heap_list_def)
  from h get_num_unique_twice [OF h] show ?thesis by blast
qed

subsection \<open>The trial runner\<close>

text \<open>
  Claim C1. For \<open>num_samples > 0\<close>, \<open>package_size \<ge> 1\<close> and \<open>num_types \<ge> 1\<close>,
  \<open>generate_samples\<close> yields, for each of the \<open>num_samples\<close> packages drawn, the number
  of distinct values in it, and \<open>run_single_trial\<close> returns the number of packages
  whose number of distinct values equals \<open>num_types\<close> divided by \<open>num_samples\<close>, a
  value in \<open>[0, 1]\<close>.
\<close>

theorem run_single_trial_fraction:
  assumes "0 < ns" and "1 \<le> ps" and "1 \<le> m"
  shows "\<exists>samples w1 est.
           generate_samples ns ps m w = (Inr samples, w1)
         \<and> samples = map (\<lambda>p. int (card (set p)))
                        (packages_drawn (nat ns) (nat ps) m (entropy w))
         \<and> int (length samples) = ns
         \<and> fst (run_single_trial ns ps m pr w) = Inr est
         \<and> est = of_nat (length (filter (\<lambda>s. s = m) samples)) / of_int ns
         \<and> est = of_nat (length (filter (\<lambda>p. int (card (set p)) = m)
                                  (packages_drawn (nat ns) (nat ps) m (entropy w))))
                 / of_int ns
         \<and> 0 \<le> est \<and> est \<le> 1"
proof -
  from assms have m: "0 < m" and ns: "ns \<noteq> 0" by simp_all
  let ?pkgs = "packages_drawn (nat ns) (nat ps) m (entropy w)"
  let ?samples = "map (\<lambda>p. int (card (set p))) ?pkgs"
  let ?est = "(of_nat (num_complete (nat ns) (nat ps) m (entropy w)) :: rat) / of_int ns"
  have counter: "get_num_unique_gummy_bear_types = (\<lambda>p. int (card (set p)))"
    by (rule ext) (rule get_num_unique_card)
  have "generate_samples ns ps m w =
          (Inr ?samples, w\<lparr>entropy := sdrop (nat ns * nat ps) (entropy w)\<rparr>)"
    using generate_samples_ok [OF m, of ns ps w] by (simp only: counter)
  moreover have "int (length ?samples) = ns"
    using assms(1) by (simp add: length_packages_drawn)
  moreover have "fst (run_single_trial ns ps m pr w) = Inr ?est"
    by (rule run_single_trial_fst [OF m ns])
  moreover have "?est = of_nat (length (filter (\<lambda>p. int (card (set p)) = m) ?pkgs))
                        / of_int ns"
    by (simp only: num_complete_def counter)
  moreover have "?est = of_nat (length (filter (\<lambda>s. s = m) ?samples)) / of_int ns"
    using count_samples [of m ?pkgs] by (simp only: num_complete_def counter)
  moreover have "0 \<le> ?est" and "?est \<le> 1"
    by (rule estimate_unit_interval [OF assms(1)])+
  ultimately show ?thesis by blast
qed

theorem run_single_trial_fraction_witness:
  "(0::int) < 2 \<and> (1::int) \<le> 2 \<and> (1::int) \<le> 2
   \<and> fst (run_single_trial 2 2 2 True world0) = Inr 1
   \<and> (\<exists>samples w1 est.
           generate_samples 2 2 2 world0 = (Inr samples, w1)
         \<and> samples = map (\<lambda>p. int (card (set p)))
                        (packages_drawn (nat 2) (nat 2) 2 (entropy world0))
         \<and> int (length samples) = 2
         \<and> fst (run_single_trial 2 2 2 True world0) = Inr est
         \<and> est = of_nat (length (filter (\<lambda>s. s = 2) samples)) / of_int 2
         \<and> est = of_nat (length (filter (\<lambda>p. int (card (set p)) = 2)
                                  (packages_drawn (nat 2) (nat 2) 2 (entropy world0))))
                 / of_int 2
         \<and> 0 \<le> est \<and> est \<le> 1)"
proof -
  have "fst (run_single_trial 2 2 2 True world0) = Inr 1"
    by (simp add: run_single_trial_def generate_samples_def
        generate_gummy_bear_package_sample_def py_bind_def py_return_def randrange_def
        true_div_def get_num_unique_gummy_bear_types_def py_set_def world0_def
        eval_nat_numeral print_def)
  then show ?thesis
    using run_single_trial_fraction [of 2 2 2 world0 True] by simp
qed

text \<open>
  Claim C6. With \<open>package_size = num_types = 1\<close> and \<open>num_samples > 0\<close> the estimate
  that \<open>run_single_trial\<close> returns is exactly 1.
\<close>

theorem run_single_trial_one_flavour:
  assumes "0 < ns"
  shows "fst (run_single_trial ns 1 1 pr w) = Inr 1"
proof -
  have "get_num_unique_gummy_bear_types (package_of (nat 1) 1 e') = 1" for e'
    by (simp add: package_of_def get_num_unique_card)
  then have "num_complete (nat ns) (nat 1) 1 (entropy w) = nat ns"
    by (rule num_complete_all)
  moreover have "fst (run_single_trial ns 1 1 pr w) =
      Inr (of_nat (num_complete (nat ns) (nat 1) 1 (entropy w)) / of_int ns)"
    using assms by (intro run_single_trial_fst) simp_all
  ultimately show ?thesis
    using assms by simp
qed

theorem run_single_trial_one_flavour_witness:
  "(0::int) < 3 \<and> fst (run_single_trial 3 1 1 False world0) = Inr 1"
  using run_single_trial_one_flavour [of 3 False world0] by simp

text \<open>
  Claim C10. The empty package has 0 distinct categories, and for
  \<open>num_samples > 0\<close> and \<open>num_types \<ge> 1\<close> a trial with \<open>package_size = 0\<close> returns
  the estimate 0 without raising.
\<close>

theorem run_single_trial_empty_packages:
  assumes "0 < ns" and "1 \<le> m"
  shows "get_num_unique_gummy_bear_types [] = 0
         \<and> fst (run_single_trial ns 0 m pr w) = Inr 0"
proof -
  have zero: "get_num_unique_gummy_bear_types [] = 0"
    by (simp add: get_num_unique_card)
  have "get_num_unique_gummy_bear_types (package_of (nat 0) m e') \<noteq> m" for e'
    using assms(2) by (simp add: package_of_def zero)
  then have "num_complete (nat ns) (nat 0) m (entropy w) = 0"
    by (rule num_complete_none)
  moreover have "fst (run_single_trial ns 0 m pr w) =
      Inr (of_nat (num_complete (nat ns) (nat 0) m (entropy w)) / of_int ns)"
    using assms by (intro run_single_trial_fst) simp_all
  ultimately show ?thesis
    using zero by simp
qed

theorem run_single_trial_empty_packages_witness:
  "(0::int) < 4 \<and> (1::int) \<le> 3 \<and> get_num_unique_gummy_bear_types [] = 0
   \<and> fst (run_single_trial 4 0 3 False world0) = Inr 0"
  using run_single_trial_empty_packages [of 4 3 False world0] by simp

text \<open>
  Claim C9. For \<open>num_samples > 0\<close>, \<open>package_size \<ge> 1\<close>, \<open>num_types \<ge> 1\<close> and the same
  world, \<open>run_single_trial\<close> returns the same estimate with \<open>print_results\<close> set or
  not, and leaves the same world but for one more console line when it is set.
\<close>

theorem run_single_trial_verbose_flag:
  assumes "0 < ns" and "1 \<le> ps" and "1 \<le> m"
  shows "\<exists>est k w1.
           run_single_trial ns ps m False w = (Inr est, w1)
         \<and> run_single_trial ns ps m True w =
             (Inr est, w1\<lparr>stdout := stdout w1 @ [TrialSummary ns k est]\<rparr>)"
proof -
  from assms have m: "0 < m" and ns: "ns \<noteq> 0" by simp_all
  let ?k = "num_complete (nat ns) (nat ps) m (entropy w)"
  let ?w1 = "w\<lparr>entropy := sdrop (nat ns * nat ps) (entropy w)\<rparr>"
  have "run_single_trial ns ps m False w = (Inr (of_nat ?k / of_int ns), ?w1)"
    by (rule run_single_trial_quiet [OF m ns])
  moreover have "run_single_trial ns ps m True w =
      (Inr (of_nat ?k / of_int ns),
       ?w1\<lparr>stdout := stdout ?w1 @ [TrialSummary ns (int ?k) (of_nat ?k / of_int ns)]\<rparr>)"
    by (simp add: run_single_trial_verbose [OF m ns])
  ultimately show ?thesis by blast
qed

theorem run_single_trial_verbose_flag_witness:
  "(0::int) < 2 \<and> (1::int) \<le> 3 \<and> (1::int) \<le> 2
   \<and> (\<exists>est k w1.
           run_single_trial 2 3 2 False world0 = (Inr est, w1)
         \<and> run_single_trial 2 3 2 True world0 =
             (Inr est, w1\<lparr>stdout := stdout w1 @ [TrialSummary 2 k est]\<rparr>))"
  using run_single_trial_verbose_flag [of 2 3 2 world0] by simp

text \<open>
  Claim C5, as the code has it. \<open>run_single_trial\<close> raises exactly when
  \<open>num_samples = 0\<close> (\<open>ZeroDivisionError\<close>) or when \<open>num_samples > 0\<close>,
  \<open>package_size > 0\<close> and \<open>num_types \<le> 0\<close> (\<open>ValueError\<close>, from the first
  \<open>randrange\<close>); the exception leaves the world as it was, nothing drawn and nothing
  printed. With \<open>num_types = 0\<close>, \<open>num_samples > 0\<close> and \<open>package_size \<le> 0\<close> the call
  returns 1 and leaves the world as it was but for the summary line when
  \<open>print_results\<close> is set: nothing is drawn. Every call with all three numbers
  positive returns an estimate.
\<close>

theorem run_single_trial_failures:
  "(ns = 0 \<longrightarrow> run_single_trial ns ps m pr w = (Inl ZeroDivisionError, w))
   \<and> (0 < ns \<and> 0 < ps \<and> m \<le> 0 \<longrightarrow> run_single_trial ns ps m pr w = (Inl ValueError, w))
   \<and> (0 < ns \<and> ps \<le> 0 \<and> m = 0 \<longrightarrow>
        run_single_trial ns ps m pr w =
          (Inr 1, if pr then w\<lparr>stdout := stdout w @ [TrialSummary ns ns 1]\<rparr> else w))
   \<and> (0 < ns \<and> 0 < ps \<and> 0 < m \<longrightarrow> (\<exists>r. fst (run_single_trial ns ps m pr w) = Inr r))
   \<and> ((\<exists>e. fst (run_single_trial ns ps m pr w) = Inl e)
        \<longleftrightarrow> ns = 0 \<or> (0 < ns \<and> 0 < ps \<and> m \<le> 0))"
proof (intro conjI impI)
  show "run_single_trial ns ps m pr w = (Inl ZeroDivisionError, w)" if "ns = 0"
    using that by (simp add: run_single_trial_no_samples)
  show "run_single_trial ns ps m pr w = (Inl ValueError, w)" if "0 < ns \<and> 0 < ps \<and> m \<le> 0"
    using that by (simp add: run_single_trial_empty_range)
  show "run_single_trial ns ps m pr w =
          (Inr 1, if pr then w\<lparr>stdout := stdout w @ [TrialSummary ns ns 1]\<rparr> else w)"
    if "0 < ns \<and> ps \<le> 0 \<and> m = 0"
    using that by (simp only: run_single_trial_no_types_no_bears_world)
  show "\<exists>r. fst (run_single_trial ns ps m pr w) = Inr r" if "0 < ns \<and> 0 < ps \<and> 0 < m"
    using that by (intro run_single_trial_returns) simp_all
  show "(\<exists>e. fst (run_single_trial ns ps m pr w) = Inl e)
        \<longleftrightarrow> ns = 0 \<or> (0 < ns \<and> 0 < ps \<and> m \<le> 0)"
  proof
    assume "\<exists>e. fst (run_single_trial ns ps m pr w) = Inl e"
    then obtain e where e: "fst (run_single_trial ns ps m pr w) = Inl e" ..
    show "ns = 0 \<or> (0 < ns \<and> 0 < ps \<and> m \<le> 0)"
    proof (rule ccontr)
      assume "\<not> (ns = 0 \<or> (0 < ns \<and> 0 < ps \<and> m \<le> 0))"
      then have "ns \<noteq> 0" and "\<not> (0 < ns \<and> 0 < ps \<and> m \<le> 0)"
        by simp_all
      then obtain r where "fst (run_single_trial ns ps m pr w) = Inr r"
        using run_single_trial_returns by blast
      with e show False by simp
    qed
  next
    assume "ns = 0 \<or> (0 < ns \<and> 0 < ps \<and> m \<le> 0)"
    then show "\<exists>e. fst (run_single_trial ns ps m pr w) = Inl e"
      by (auto simp: run_single_trial_no_samples run_single_trial_empty_range)
  qed
qed

theorem run_single_trial_failures_witness:
  "run_single_trial 0 2 2 True world0 = (Inl ZeroDivisionError, world0)
   \<and> run_single_trial 2 2 0 True world0 = (Inl ValueError, world0)
   \<and> run_single_trial 2 0 0 True world0 =
         (Inr 1, world0\<lparr>stdout := stdout world0 @ [TrialSummary 2 2 1]\<rparr>)
   \<and> (\<exists>r. fst (run_single_trial 2 2 2 True world0) = Inr r)"
  using run_single_trial_failures [of 0 2 2 True world0]
    run_single_trial_failures [of 2 2 0 True world0]
    run_single_trial_failures [of 2 0 0 True world0]
    run_single_trial_failures [of 2 2 2 True world0]
  by simp

text \<open>
  Two calls with \<open>num_types = 0\<close>. With a package size of 1 the call raises, but what
  it raises is the \<open>ValueError\<close> of \<open>randrange\<close>, no division by zero. With a package
  size of 0 nothing is drawn: the one sample is 0, equals \<open>num_types\<close>, and the call
  returns 1.
\<close>

theorem run_single_trial_no_types_counterexample:
  "fst (run_single_trial 1 1 0 False world0) = Inl ValueError
   \<and> fst (run_single_trial 1 1 0 False world0) \<noteq> Inl ZeroDivisionError
   \<and> run_single_trial 1 0 0 False world0 = (Inr 1, world0)
   \<and> \<not> (\<exists>e. fst (run_single_trial 1 0 0 False world0) = Inl e)"
  by (simp add: run_single_trial_no_types_no_bears_world run_single_trial_empty_range)

subsection \<open>The trial aggregator\<close>

lemma length_trial_estimates: "length (trial_estimates n ns ps m e) = n"
  by (induction n arbitrary: e) simp_all

lemma trial_estimates_nth:
  "i < n \<Longrightarrow>
   trial_estimates n ns ps m e ! i =
     of_nat (num_complete (nat ns) (nat ps) m (sdrop (i * (nat ns * nat ps)) e)) / of_int ns"
proof (induction n arbitrary: i e)
  case 0
  then show ?case by simp
next
  case (Suc n)
  show ?case
  proof (cases i)
    case 0
    then show ?thesis by simp
  next
    case (Suc j)
    with Suc.prems have "j < n" by simp
    from Suc.IH [OF this] show ?thesis
      using Suc by (simp add: add.commute)
  qed
qed

lemma trials_loop_ok:
  assumes "0 < m" and "ns \<noteq> 0"
  shows "trials_loop n (run_single_trial ns ps m False) acc w =
     (Inr (acc @ trial_estimates n ns ps m (entropy w)),
      w\<lparr>entropy := sdrop (n * (nat ns * nat ps)) (entropy w)\<rparr>)"
proof (induction n arbitrary: acc w)
  case 0
  show ?case by (simp add: py_return_def)
next
  case (Suc n)
  let ?est = "(of_nat (num_complete (nat ns) (nat ps) m (entropy w)) :: rat) / of_int ns"
  let ?w1 = "w\<lparr>entropy := sdrop (nat ns * nat ps) (entropy w)\<rparr>"
  have "trials_loop (Suc n) (run_single_trial ns ps m False) acc w =
        trials_loop n (run_single_trial ns ps m False) (acc @ [?est]) ?w1"
    by (simp only: trials_loop.simps py_bind_Inr [OF run_single_trial_quiet [OF assms]])
  also have "\<dots> = (Inr ((acc @ [?est]) @ trial_estimates n ns ps m (entropy ?w1)),
      ?w1\<lparr>entropy := sdrop (n * (nat ns * nat ps)) (entropy ?w1)\<rparr>)"
    by (rule Suc.IH)
  also have "\<dots> = (Inr (acc @ trial_estimates (Suc n) ns ps m (entropy w)),
      w\<lparr>entropy := sdrop (Suc n * (nat ns * nat ps)) (entropy w)\<rparr>)"
    by (simp add: add.commute)
  finally show ?case .
qed

lemma print_estimates_ok:
  "estimates \<noteq> [] \<Longrightarrow>
   print_estimates estimates n m w =
     (Inr (), w\<lparr>stdout := stdout w @
        [ResultsFor n m, EstimateList estimates,
         MeanLine (sum_list estimates / of_nat (length estimates))]\<rparr>)"
  by (simp add: print_estimates_def py_bind_def print_def statistics_mean_def py_return_def)

lemma print_estimates_empty:
  "print_estimates [] n m w =
     (Inl StatisticsError, w\<lparr>stdout := stdout w @ [ResultsFor n m, EstimateList []]\<rparr>)"
  by (simp add: print_estimates_def py_bind_def print_def statistics_mean_def py_raise_def)

lemma run_trials_ok:
  assumes "0 < nt" and "0 < m" and "ns \<noteq> 0"
  shows "run_trials nt ns ps m w =
     (Inr (trial_estimates (nat nt) ns ps m (entropy w)),
      w\<lparr>entropy := sdrop (nat nt * (nat ns * nat ps)) (entropy w),
        clock := stl (stl (clock w)),
        stdout := stdout w @
          [ResultsFor ps m, EstimateList (trial_estimates (nat nt) ns ps m (entropy w)),
           MeanLine (sum_list (trial_estimates (nat nt) ns ps m (entropy w))
                     / of_nat (length (trial_estimates (nat nt) ns ps m (entropy w)))),
           TimeTaken (shd (stl (clock w)) - shd (clock w))]\<rparr>)"
proof -
  let ?ests = "trial_estimates (nat nt) ns ps m (entropy w)"
  have "length ?ests \<noteq> 0"
    using assms(1) by (simp add: length_trial_estimates)
  then have ne: "?ests \<noteq> []" by simp
  show ?thesis
    using ne
    by (simp add: run_trials_def py_bind_def time_time_def trials_loop_ok [OF assms(2,3)]
        print_estimates_ok print_def py_return_def)
qed

lemma run_trials_none:
  assumes "nt \<le> 0"
  shows "run_trials nt ns ps m w =
     (Inl StatisticsError,
      w\<lparr>clock := stl (clock w), stdout := stdout w @ [ResultsFor ps m, EstimateList []]\<rparr>)"
  using assms
  by (simp add: run_trials_def py_bind_def time_time_def print_estimates_empty py_return_def)

text \<open>
  Claim C4, as the code has it. For \<open>num_trials \<ge> 1\<close>, \<open>num_samples > 0\<close>,
  \<open>package_size \<ge> 1\<close> and \<open>num_types \<ge> 1\<close>, \<open>run_trials\<close> returns a list of exactly
  \<open>num_trials\<close> estimates, the \<open>i\<close>-th being what \<open>run_single_trial\<close> returns on
  the random source as the \<open>i\<close> trials before it left it, and the mean it prints is
  the sum of the list divided by its length. (With \<open>num_trials = 0\<close> the call raises
  \<open>StatisticsError\<close>: see the counterexample below.)
\<close>

theorem run_trials_estimates:
  assumes "1 \<le> nt" and "0 < ns" and "1 \<le> ps" and "1 \<le> m"
  shows "\<exists>estimates w1.
           run_trials nt ns ps m w = (Inr estimates, w1)
         \<and> int (length estimates) = nt
         \<and> (\<forall>i < nat nt.
              fst (run_single_trial ns ps m False
                     (w\<lparr>entropy := sdrop (i * (nat ns * nat ps)) (entropy w)\<rparr>))
                = Inr (estimates ! i))
         \<and> stdout w1 = stdout w @
              [ResultsFor ps m, EstimateList estimates,
               MeanLine (sum_list estimates / of_nat (length estimates)),
               TimeTaken (shd (stl (clock w)) - shd (clock w))]"
proof -
  from assms have nt: "0 < nt" and m: "0 < m" and ns: "ns \<noteq> 0" by simp_all
  let ?ests = "trial_estimates (nat nt) ns ps m (entropy w)"
  let ?w1 = "w\<lparr>entropy := sdrop (nat nt * (nat ns * nat ps)) (entropy w),
        clock := stl (stl (clock w)),
        stdout := stdout w @
          [ResultsFor ps m, EstimateList ?ests,
           MeanLine (sum_list ?ests / of_nat (length ?ests)),
           TimeTaken (shd (stl (clock w)) - shd (clock w))]\<rparr>"
  have "run_trials nt ns ps m w = (Inr ?ests, ?w1)"
    by (rule run_trials_ok [OF nt m ns])
  moreover have "int (length ?ests) = nt"
    using nt by (simp add: length_trial_estimates)
  moreover have "\<forall>i < nat nt.
      fst (run_single_trial ns ps m False
             (w\<lparr>entropy := sdrop (i * (nat ns * nat ps)) (entropy w)\<rparr>))
        = Inr (?ests ! i)"
    by (simp add: run_single_trial_fst [OF m ns] trial_estimates_nth)
  moreover have "stdout ?w1 = stdout w @
              [ResultsFor ps m, EstimateList ?ests,
               MeanLine (sum_list ?ests / of_nat (length ?ests)),
               TimeTaken (shd (stl (clock w)) - shd (clock w))]"
    by simp
  ultimately show ?thesis by blast
qed

theorem run_trials_estimates_witness:
  "(1::int) \<le> 2 \<and> (0::int) < 2 \<and> (1::int) \<le> 1 \<and> (1::int) \<le> 2
   \<and> (\<exists>estimates w1.
           run_trials 2 2 1 2 world0 = (Inr estimates, w1)
         \<and> int (length estimates) = 2
         \<and> (\<forall>i < nat 2.
              fst (run_single_trial 2 1 2 False
                     (world0\<lparr>entropy := sdrop (i * (nat 2 * nat 1)) (entropy world0)\<rparr>))
                = Inr (estimates ! i))
         \<and> stdout w1 = stdout world0 @
              [ResultsFor 1 2, EstimateList estimates,
               MeanLine (sum_list estimates / of_nat (length estimates)),
               TimeTaken (shd (stl (clock world0)) - shd (clock world0))])"
  using run_trials_estimates [of 2 2 1 2 world0] by simp

text \<open>
  With no trial to run, \<open>print_estimates\<close> asks \<^verbatim>\<open>statistics.mean\<close> for the mean of
  an empty list, and \<open>run_trials\<close> raises instead of returning the empty list.
\<close>

theorem run_trials_no_trials_counterexample:
  "fst (run_trials 0 1 1 1 world0) = Inl StatisticsError"
  by (simp add: run_trials_none)

subsection \<open>The expected estimate\<close>

lemma distinct_all_draws: "distinct (all_draws n m)"
  unfolding all_draws_def
  by (intro distinct_n_lists) (simp add: distinct_map)

lemma set_all_draws: "set (all_draws n m) = {p. length p = n \<and> set p \<subseteq> int ` {0..<m}}"
  by (simp add: all_draws_def set_n_lists)

lemma length_all_draws: "length (all_draws n m) = m ^ n"
  by (simp add: all_draws_def length_n_lists)

lemma complete_packages_subset: "complete_packages n m \<subseteq> set (all_draws n m)"
  by (auto simp: complete_packages_def set_all_draws)

lemma finite_complete_packages: "finite (complete_packages n m)"
  by (rule finite_subset [OF complete_packages_subset]) simp

lemma count_complete:
  "length (filter (\<lambda>p. get_num_unique_gummy_bear_types p = int m) (all_draws n m)) =
   card (complete_packages n m)"
proof -
  have "{p. get_num_unique_gummy_bear_types p = int m} \<inter> set (all_draws n m) =
        complete_packages n m"
  proof (intro equalityI subsetI)
    fix p
    assume "p \<in> {p. get_num_unique_gummy_bear_types p = int m} \<inter> set (all_draws n m)"
    then have c: "card (set p) = m" and l: "length p = n" and s: "set p \<subseteq> int ` {0..<m}"
      by (simp_all add: get_num_unique_card set_all_draws)
    have "card (int ` {0..<m}) = m"
      by (simp add: card_image)
    with c s have "set p = int ` {0..<m}"
      by (intro card_subset_eq) simp_all
    with l show "p \<in> complete_packages n m"
      by (simp add: complete_packages_def)
  next
    fix p
    assume "p \<in> complete_packages n m"
    then have "length p = n" and s: "set p = int ` {0..<m}"
      by (simp_all add: complete_packages_def)
    moreover from s have "card (set p) = m"
      by (simp add: card_image)
    ultimately show
      "p \<in> {p. get_num_unique_gummy_bear_types p = int m} \<inter> set (all_draws n m)"
      by (simp add: get_num_unique_card set_all_draws)
  qed
  then show ?thesis
    by (simp add: distinct_length_filter [OF distinct_all_draws])
qed

lemma probability_all_types_card:
  "probability_all_types n m = of_nat (card (complete_packages n m)) / of_nat (m ^ n)"
  by (simp only: probability_all_types_def count_complete length_all_draws)

lemma complete_packages_step:
  assumes "2 \<le> m" and "m - 1 \<le> n"
  shows "m * card (complete_packages n m) < card (complete_packages (Suc n) m)"
proof -
  let ?M = "int ` {0..<m}"
  let ?C = "complete_packages n m"
  let ?F = "(\<lambda>(x, p). x # p) ` (?M \<times> ?C)"
  define r where "r = map int [1..<m] @ replicate (n - (m - 1)) 1"
  have len_r: "length r = n"
    using assms by (simp add: r_def)
  have "set r = int ` {1..<m}"
    using assms by (auto simp: r_def)
  then have set_r: "set r = ?M - {0}"
    by (auto simp: image_iff)
  have inj: "inj_on (\<lambda>(x, p). x # p) (?M \<times> ?C)"
    by (auto simp: inj_on_def)
  have "card ?F = card (?M \<times> ?C)"
    by (rule card_image [OF inj])
  also have "\<dots> = m * card ?C"
    by (simp add: card_cartesian_product card_image)
  finally have card_F: "card ?F = m * card ?C" .
  have F_sub: "?F \<subseteq> complete_packages (Suc n) m"
    by (auto simp: complete_packages_def)
  have "0 \<in> ?M"
    using assms(1) by (auto simp: image_iff)
  then have "insert 0 (set r) = ?M"
    using set_r by auto
  then have r_in: "0 # r \<in> complete_packages (Suc n) m"
    by (simp add: complete_packages_def len_r)
  have r_out: "0 # r \<notin> ?F"
    using set_r by (auto simp: complete_packages_def)
  have fin_F: "finite ?F"
    by (simp add: finite_complete_packages)
  have "card (insert (0 # r) ?F) \<le> card (complete_packages (Suc n) m)"
    using F_sub r_in by (intro card_mono finite_complete_packages) simp
  then show ?thesis
    using r_out fin_F card_F by simp
qed

lemma probability_all_types_step:
  assumes "2 \<le> m" and "m - 1 \<le> n"
  shows "probability_all_types n m < probability_all_types (Suc n) m"
proof -
  have pos: "(0::rat) < of_nat m"
    using assms(1) by simp
  have "(of_nat (m * card (complete_packages n m)) :: rat)
          < of_nat (card (complete_packages (Suc n) m))"
    using complete_packages_step [OF assms] by (simp only: of_nat_less_iff)
  then have "(of_nat (card (complete_packages n m)) :: rat) * of_nat m
          < of_nat (card (complete_packages (Suc n) m))"
    by (simp add: mult.commute)
  then have "(of_nat (card (complete_packages n m)) :: rat) * of_nat m / of_nat m ^ Suc n
          < of_nat (card (complete_packages (Suc n) m)) / of_nat m ^ Suc n"
    using pos by (intro divide_strict_right_mono) simp_all
  moreover have "(of_nat (card (complete_packages n m)) :: rat) * of_nat m / of_nat m ^ Suc n
          = of_nat (card (complete_packages n m)) / of_nat m ^ n"
    using pos by simp
  ultimately show ?thesis
    by (simp only: probability_all_types_card of_nat_power)
qed

lemma probability_all_types_mono:
  assumes "2 \<le> m" and "m - 1 \<le> n" and "n < n'"
  shows "probability_all_types n m < probability_all_types n' m"
  using assms(3)
proof (induction n')
  case 0
  then show ?case by simp
next
  case (Suc k)
  show ?case
  proof (cases "n = k")
    case True
    then show ?thesis
      using probability_all_types_step [OF assms(1,2)] by simp
  next
    case False
    with Suc.prems have nk: "n < k" by simp
    then have "m - 1 \<le> k"
      using assms(2) by simp
    from probability_all_types_step [OF assms(1) this] Suc.IH [OF nk]
    show ?thesis by simp
  qed
qed

lemma probability_one_type: "0 < n \<Longrightarrow> probability_all_types n 1 = 1"
proof -
  assume n: "0 < n"
  have "complete_packages n 1 = {replicate n 0}"
  proof (intro equalityI subsetI)
    fix p assume "p \<in> complete_packages n 1"
    then have "length p = n" "set p = {0}"
      by (simp_all add: complete_packages_def)
    then have "p = replicate n 0"
      by (intro replicate_eqI) auto
    then show "p \<in> {replicate n 0}" by simp
  next
    fix p assume "p \<in> {replicate n (0::int)}"
    then show "p \<in> complete_packages n 1"
      using n by (simp add: complete_packages_def)
  qed
  then show ?thesis
    by (simp add: probability_all_types_card)
qed

lemma card_all_draws: "card (set (all_draws n m)) = m ^ n"
  by (simp add: distinct_card [OF distinct_all_draws] length_all_draws)

lemma all_draws_append:
  "sum f (set (all_draws (a + b) m)) =
   (\<Sum>ys \<in> set (all_draws a m). \<Sum>zs \<in> set (all_draws b m). f (ys @ zs))"
proof -
  let ?A = "set (all_draws a m)" and ?B = "set (all_draws b m)"
  have inj: "inj_on (\<lambda>(ys, zs). ys @ zs) (?A \<times> ?B)"
    by (auto simp: inj_on_def set_all_draws)
  have img: "(\<lambda>(ys, zs). ys @ zs) ` (?A \<times> ?B) = set (all_draws (a + b) m)"
  proof (intro equalityI subsetI)
    fix xs assume "xs \<in> (\<lambda>(ys, zs). ys @ zs) ` (?A \<times> ?B)"
    then show "xs \<in> set (all_draws (a + b) m)"
      by (auto simp: set_all_draws)
  next
    fix xs assume xs: "xs \<in> set (all_draws (a + b) m)"
    then have "take a xs \<in> ?A" and "drop a xs \<in> ?B"
      using set_take_subset [of a xs] set_drop_subset [of a xs]
      by (auto simp: set_all_draws)
    moreover have "xs = take a xs @ drop a xs" by simp
    ultimately show "xs \<in> (\<lambda>(ys, zs). ys @ zs) ` (?A \<times> ?B)"
      by (metis (no_types, lifting) SigmaI image_eqI old.prod.case)
  qed
  have "sum f (set (all_draws (a + b) m)) = sum (f \<circ> (\<lambda>(ys, zs). ys @ zs)) (?A \<times> ?B)"
    by (simp only: img [symmetric] sum.reindex [OF inj])
  also have "\<dots> = (\<Sum>(ys, zs) \<in> ?A \<times> ?B. f (ys @ zs))"
    by (intro sum.cong) auto
  also have "\<dots> = (\<Sum>ys \<in> ?A. \<Sum>zs \<in> ?B. f (ys @ zs))"
    by (simp only: sum.cartesian_product)
  finally show ?thesis .
qed

lemma package_of_drawing:
  assumes "ys \<in> set (all_draws k m)"
  shows "package_of k (int m) (map nat (ys @ zs) @- s) = ys"
    and "sdrop k (map nat (ys @ zs) @- s) = map nat zs @- s"
proof -
  from assms have len: "length ys = k" and rng: "\<forall>y \<in> set ys. 0 \<le> y \<and> y < int m"
    by (auto simp: set_all_draws)
  have "stake k (map nat (ys @ zs) @- s) = map nat ys"
    using len by (simp add: stake_shift)
  then have "package_of k (int m) (map nat (ys @ zs) @- s) = map (\<lambda>y. int (nat y) mod int m) ys"
    by (simp add: package_of_def comp_def)
  also have "\<dots> = map (\<lambda>y. y) ys"
    using rng by (intro map_cong) simp_all
  finally show "package_of k (int m) (map nat (ys @ zs) @- s) = ys"
    by simp
  show "sdrop k (map nat (ys @ zs) @- s) = map nat zs @- s"
    using len by (simp add: sdrop_shift)
qed

lemma num_complete_drawing:
  assumes "ys \<in> set (all_draws k m)"
  shows "num_complete (Suc n) k (int m) (map nat (ys @ zs) @- s) =
     (if get_num_unique_gummy_bear_types ys = int m then 1 else 0)
     + num_complete n k (int m) (map nat zs @- s)"
  unfolding num_complete_def packages_drawn.simps package_of_drawing [OF assms]
  by simp

lemma sum_indicator_complete:
  "(\<Sum>ys \<in> set (all_draws k m). if get_num_unique_gummy_bear_types ys = int m then 1 else 0) =
   card (complete_packages k m)"
proof -
  have "(\<Sum>ys \<in> set (all_draws k m).
           if get_num_unique_gummy_bear_types ys = int m then 1 else (0::nat)) =
        card {ys \<in> set (all_draws k m). get_num_unique_gummy_bear_types ys = int m}"
    by (simp add: sum.If_cases Int_def conj_commute)
  also have "\<dots> = length (filter (\<lambda>p. get_num_unique_gummy_bear_types p = int m)
                             (all_draws k m))"
    by (simp add: distinct_length_filter [OF distinct_all_draws] Int_def conj_commute)
  finally show ?thesis
    by (simp only: count_complete)
qed

lemma total_complete_Suc:
  "total_complete (Suc n) k m =
     m ^ (n * k) * card (complete_packages k m) + m ^ k * total_complete n k m"
proof -
  let ?ind = "\<lambda>ys. if get_num_unique_gummy_bear_types ys = int m then 1 else (0::nat)"
  let ?nc = "\<lambda>zs. num_complete n k (int m) (map nat zs @- sconst 0)"
  have "total_complete (Suc n) k m =
        (\<Sum>ys \<in> set (all_draws k m). \<Sum>zs \<in> set (all_draws (n * k) m).
           num_complete (Suc n) k (int m) (map nat (ys @ zs) @- sconst 0))"
    by (simp add: total_complete_def all_draws_append)
  also have "\<dots> = (\<Sum>ys \<in> set (all_draws k m). \<Sum>zs \<in> set (all_draws (n * k) m).
           ?ind ys + ?nc zs)"
    by (intro sum.cong refl) (simp only: num_complete_drawing)
  also have "\<dots> = (\<Sum>ys \<in> set (all_draws k m). m ^ (n * k) * ?ind ys + total_complete n k m)"
    by (simp add: sum.distrib card_all_draws total_complete_def)
  also have "\<dots> = m ^ (n * k) * (\<Sum>ys \<in> set (all_draws k m). ?ind ys)
                  + m ^ k * total_complete n k m"
    by (simp add: sum.distrib sum_distrib_left card_all_draws)
  finally show ?thesis
    by (simp only: sum_indicator_complete)
qed

lemma total_complete_closed:
  "total_complete n k m * m ^ k = n * m ^ (n * k) * card (complete_packages k m)"
proof (induction n)
  case 0
  show ?case
    by (simp add: total_complete_def num_complete_def)
next
  case (Suc n)
  have "total_complete (Suc n) k m * m ^ k =
        m ^ (n * k) * card (complete_packages k m) * m ^ k
        + m ^ k * (total_complete n k m * m ^ k)"
    by (simp add: total_complete_Suc algebra_simps)
  also have "\<dots> = m ^ (n * k) * card (complete_packages k m) * m ^ k
        + m ^ k * (n * m ^ (n * k) * card (complete_packages k m))"
    by (simp only: Suc.IH)
  also have "\<dots> = Suc n * m ^ (Suc n * k) * card (complete_packages k m)"
    by (simp add: power_add algebra_simps)
  finally show ?case .
qed

lemma estimate_on_drawing:
  assumes "0 < m" and "0 < ns"
  shows "estimate_on ns ps m os =
     of_nat (num_complete (nat ns) (nat ps) m (map nat os @- sconst 0)) / of_int ns"
proof -
  from assms(2) have ns: "ns \<noteq> 0" by simp
  show ?thesis
    by (simp add: estimate_on_def run_single_trial_fst [OF assms(1) ns] world_drawing_def)
qed

lemma expected_estimate_probability:
  assumes "0 < m" and "0 < ns"
  shows "expected_estimate ns ps m = probability_all_types (nat ps) (nat m)"
proof -
  define N K M where "N = nat ns" and "K = nat ps" and "M = nat m"
  have m: "m = int M" and ns: "ns = int N" and N: "0 < N" and M: "0 < M"
    using assms by (simp_all add: N_def K_def M_def)
  have est: "estimate_on ns ps m os =
      of_nat (num_complete N K (int M) (map nat os @- sconst 0)) / of_nat N" for os
    using assms estimate_on_drawing [OF assms, of ps os] by (simp add: N_def K_def M_def)
  have "sum_list (map (estimate_on ns ps m) (all_draws (N * K) M)) =
        (\<Sum>os \<in> set (all_draws (N * K) M). estimate_on ns ps m os)"
    by (rule sum_list_distinct_conv_sum_set [OF distinct_all_draws])
  also have "\<dots> = (\<Sum>os \<in> set (all_draws (N * K) M).
        of_nat (num_complete N K (int M) (map nat os @- sconst 0)) / of_nat N)"
    by (simp only: est)
  also have "\<dots> = of_nat (total_complete N K M) / of_nat N"
    by (simp add: total_complete_def sum_divide_distrib)
  finally have "expected_estimate ns ps m =
        of_nat (total_complete N K M) / of_nat N / of_nat (M ^ (N * K))"
    by (simp add: expected_estimate_def length_all_draws N_def K_def M_def)
  moreover have "(of_nat (total_complete N K M) :: rat) * of_nat (M ^ K) =
        of_nat N * of_nat (M ^ (N * K)) * of_nat (card (complete_packages K M))"
    using total_complete_closed [of N K M]
    by (metis of_nat_mult)
  then have "(of_nat (total_complete N K M) :: rat) =
        of_nat N * of_nat (M ^ (N * K)) * of_nat (card (complete_packages K M))
        / of_nat (M ^ K)"
    using M by (simp add: eq_divide_eq)
  ultimately have "expected_estimate ns ps m =
        of_nat N * of_nat (M ^ (N * K)) * of_nat (card (complete_packages K M))
        / of_nat (M ^ K) / of_nat N / of_nat (M ^ (N * K))"
    by (simp only:)
  also have "\<dots> = of_nat (card (complete_packages K M)) / of_nat (M ^ K)"
    using N M by simp
  finally show ?thesis
    by (simp add: probability_all_types_card N_def K_def M_def)
qed

lemma generate_package_drawing:
  assumes "ys \<in> set (all_draws (nat ps) (nat m))" and "0 < m"
  shows "fst (generate_gummy_bear_package_sample ps m (world_drawing (ys @ zs))) = Inr ys"
  using assms(2) package_of_drawing(1) [OF assms(1), of zs "sconst 0"]
  by (simp add: generate_package [OF assms(2)] world_drawing_def)

text \<open>
  Claim C8, as the code has it. With the draws uniform and independent, the expected
  value of the estimate of \<open>run_single_trial\<close> is the probability that a package of
  \<open>n\<close> draws over \<open>m\<close> types holds all \<open>m\<close> types, and for \<open>n > m \<ge> 2\<close> it grows
  strictly with the package size \<open>n\<close>. (With \<open>m = 1\<close> it is 1 for every \<open>n \<ge> 1\<close>: see
  the counterexample below.)
\<close>

theorem expected_estimate_increasing:
  assumes "0 < ns" and "2 \<le> m" and "m < n" and "n < n'"
  shows "expected_estimate ns n m = probability_all_types (nat n) (nat m)
         \<and> expected_estimate ns n' m = probability_all_types (nat n') (nat m)
         \<and> expected_estimate ns n m < expected_estimate ns n' m"
proof -
  from assms(2) have m: "0 < m" by simp
  have "2 \<le> nat m" and "nat m - 1 \<le> nat n" and "nat n < nat n'"
    using assms by simp_all
  then have "probability_all_types (nat n) (nat m) < probability_all_types (nat n') (nat m)"
    by (rule probability_all_types_mono)
  then show ?thesis
    by (simp only: expected_estimate_probability [OF m assms(1)] simp_thms)
qed

theorem expected_estimate_increasing_witness:
  "(0::int) < 1 \<and> (2::int) \<le> 2 \<and> (2::int) < 3 \<and> (3::int) < 4
   \<and> expected_estimate 1 3 2 < expected_estimate 1 4 2"
  using expected_estimate_increasing [of 1 2 3 4] by simp

text \<open>
  With a single type every package of at least one bear holds all types, so the
  expected estimate is 1 for package sizes 2 and 3 alike.
\<close>

theorem expected_estimate_one_type_counterexample:
  "expected_estimate 1 2 1 = 1 \<and> expected_estimate 1 3 1 = 1
   \<and> \<not> (expected_estimate 1 2 1 < expected_estimate 1 3 1)"
proof -
  have "expected_estimate 1 2 1 = probability_all_types 2 1"
    and "expected_estimate 1 3 1 = probability_all_types 3 1"
    by (simp_all add: expected_estimate_probability)
  moreover have "probability_all_types 2 1 = 1" and "probability_all_types 3 1 = 1"
    by (simp_all only: probability_one_type zero_less_numeral)
  ultimately show ?thesis by simp
qed

end
